theory Spec2Isabelle
  imports Complex_Main "HOL-Library.Sublist" "HOL-Library.Multiset"
begin

section \<open>Data model\<close>

text \<open>
  The normalized article built by \<^verbatim>\<open>fetchAllNews\<close> in \<^verbatim>\<open>src/App.jsx\<close>: an object with the
  seven properties \<^verbatim>\<open>id, title, url, imageUrl, source, publishedAt, apiSource\<close>. A bookmark is
  the same object with one more property, \<^verbatim>\<open>bookmarkedAt\<close>; the bookmarks view and the news
  view share one filter and one card component, so both are values of one record whose
  \<open>bookmarkedAt\<close> is absent (\<open>None\<close>) on a plain article. The image is optional
  (\<^verbatim>\<open>urlToImage\<close> may be null, \<^verbatim>\<open>fields?.thumbnail\<close> may be undefined). The field
  \<^verbatim>\<open>id\<close> is named \<open>id_key\<close> here, since \<open>id\<close> is the identity function of HOL.
  The normalization copies the title as the service delivers it, without a check: the
  title is \<open>None\<close> when the service delivered null, or nothing, in place of a string, and
  calling a string method on it then throws. The other fields hold the strings that the
  services deliver; two strings are equal (\<^verbatim>\<open>===\<close>) when they are the same sequence of
  characters. Nothing below depends on which characters there are: the only operations
  on strings are equality, the substring test and the case mapping, which is a parameter.
\<close>

record article =
  id_key :: string
  title :: "string option"
  url :: string
  imageUrl :: "string option"
  source :: string
  publishedAt :: string
  apiSource :: string
  bookmarkedAt :: "string option"

text \<open>
  The state of \<^verbatim>\<open>App\<close> that the operations below read or write (its \<^verbatim>\<open>useState\<close> cells).
  Page numbers and the page size are JavaScript numbers that only ever hold integers.
\<close>

record app_state =
  articles :: "article list"
  loading :: bool
  searchQuery :: string
  bookmarks :: "article list"
  showBookmarks :: bool
  currentPage :: int
  itemsPerPage :: int
  darkMode :: bool

text \<open>The one exception the code modelled here can raise.\<close>

datatype js_error = TypeError

definition initial_state :: app_state where
  "initial_state =
     \<lparr>articles = [], loading = True, searchQuery = [], bookmarks = [], showBookmarks = False,
      currentPage = 1, itemsPerPage = 12, darkMode = False\<rparr>"

section \<open>Fetching, normalizing, deduplicating and sorting\<close>

text \<open>
  One entry of the array that \<^verbatim>\<open>Promise.allSettled\<close> resolves to: the request either
  fulfilled with the parsed JSON body or rejected with a reason (network failure, a body
  that is not JSON). The body of a fulfilled request is \<open>None\<close> when it is the JSON
  literal \<^verbatim>\<open>null\<close>, on which every property access throws.
\<close>

datatype 'a settled = Fulfilled 'a | Rejected string

text \<open>
  The value of a property that should hold an array, as the code distinguishes it:
  \<open>Missing\<close> when the property is absent or holds a falsy value (the services answer an
  error object such as \<^verbatim>\<open>{status: "error", message: ...}\<close>), \<open>NotAnArray\<close> when it holds
  a truthy value without a \<^verbatim>\<open>map\<close> method, and an array otherwise; an array, even an empty
  one, is truthy. An element of the array is \<open>None\<close> when it is \<^verbatim>\<open>null\<close>.
\<close>

datatype 'a json_list = Missing | NotAnArray | JArray "'a option list"

text \<open>
  The response objects of the three services, reduced to the properties the code reads.
  \<open>na_source_name\<close> and \<open>gn_source_name\<close> are \<^verbatim>\<open>article.source.name\<close>: \<open>None\<close> when
  \<^verbatim>\<open>source\<close> is null or missing, where reading \<^verbatim>\<open>name\<close> throws. \<open>g_thumbnail\<close> is
  \<^verbatim>\<open>article.fields?.thumbnail\<close>, which never throws.
\<close>

record newsapi_article =
  na_url :: string
  na_title :: "string option"
  na_urlToImage :: "string option"
  na_source_name :: "string option"
  na_publishedAt :: string

record newsapi_payload =
  na_articles :: "newsapi_article json_list"

record gnews_article =
  gn_url :: string
  gn_title :: "string option"
  gn_image :: "string option"
  gn_source_name :: "string option"
  gn_publishedAt :: string

record gnews_payload =
  gn_articles :: "gnews_article json_list"

record guardian_article =
  g_id :: string
  g_webTitle :: "string option"
  g_webUrl :: string
  g_thumbnail :: "string option"
  g_webPublicationDate :: string

record guardian_response =
  g_results :: "guardian_article json_list"

record guardian_payload =
  g_response :: "guardian_response option"

text \<open>
  The callbacks handed to \<^verbatim>\<open>map\<close>. Each reads the properties of one array element; on a
  null element, or on an element whose \<^verbatim>\<open>source\<close> is null or missing, a read throws.
\<close>

definition normalizeNewsApi :: "newsapi_article option \<Rightarrow> js_error + article" where
  "normalizeNewsApi element =
     (case element of
        None \<Rightarrow> Inl TypeError
      | Some a \<Rightarrow>
          (case na_source_name a of
             None \<Rightarrow> Inl TypeError
           | Some name \<Rightarrow>
               Inr \<lparr>id_key = na_url a, title = na_title a, url = na_url a,
                    imageUrl = na_urlToImage a, source = name, publishedAt = na_publishedAt a,
                    apiSource = ''NewsAPI'', bookmarkedAt = None\<rparr>))"

definition normalizeGNews :: "gnews_article option \<Rightarrow> js_error + article" where
  "normalizeGNews element =
     (case element of
        None \<Rightarrow> Inl TypeError
      | Some a \<Rightarrow>
          (case gn_source_name a of
             None \<Rightarrow> Inl TypeError
           | Some name \<Rightarrow>
               Inr \<lparr>id_key = gn_url a, title = gn_title a, url = gn_url a,
                    imageUrl = gn_image a, source = name, publishedAt = gn_publishedAt a,
                    apiSource = ''GNews'', bookmarkedAt = None\<rparr>))"

definition normalizeGuardian :: "guardian_article option \<Rightarrow> js_error + article" where
  "normalizeGuardian element =
     (case element of
        None \<Rightarrow> Inl TypeError
      | Some a \<Rightarrow>
          Inr \<lparr>id_key = g_id a, title = g_webTitle a, url = g_webUrl a,
               imageUrl = g_thumbnail a, source = ''The Guardian'',
               publishedAt = g_webPublicationDate a, apiSource = ''The Guardian'',
               bookmarkedAt = None\<rparr>)"

text \<open>
  \<^verbatim>\<open>Array.prototype.map\<close> with a callback that may throw: the elements are visited from
  the left, and the first exception ends the call.
\<close>

fun map_throwing :: "('a \<Rightarrow> 'e + 'b) \<Rightarrow> 'a list \<Rightarrow> 'e + 'b list" where
  "map_throwing f [] = Inr []"
| "map_throwing f (x # xs) =
     (case f x of
        Inl e \<Rightarrow> Inl e
      | Inr y \<Rightarrow> (case map_throwing f xs of Inl e \<Rightarrow> Inl e | Inr ys \<Rightarrow> Inr (y # ys)))"

text \<open>
  The three \<^verbatim>\<open>if (results[i].status === 'fulfilled' && results[i].value.articles)\<close>
  blocks. Each takes \<^verbatim>\<open>combinedArticles\<close> and the console and returns them: the normalized
  articles pushed at the end of \<^verbatim>\<open>combinedArticles\<close>, or, in the \<^verbatim>\<open>else\<close> branch, one
  line written by \<^verbatim>\<open>console.error\<close> (the message and \<^verbatim>\<open>results[i].reason\<close>, which is
  undefined for a fulfilled request). The condition reads a property of the body, so it
  throws on a null body; \<^verbatim>\<open>map\<close> is missing on a truthy value that is not an array; and
  the callback may throw. Nothing in \<^verbatim>\<open>fetchAllNews\<close> catches an exception.
  \<^verbatim>\<open>value.response?.results\<close> is undefined when \<^verbatim>\<open>response\<close> is missing.
\<close>

type_synonym console = "(string \<times> string option) list"

definition processNewsApi ::
  "newsapi_payload option settled \<Rightarrow> article list \<times> console \<Rightarrow>
   js_error + article list \<times> console"
where
  "processNewsApi r acc =
     (case acc of (combined, out) \<Rightarrow>
        (case r of
           Rejected reason \<Rightarrow>
             Inr (combined, out @ [(''Failed to fetch from NewsAPI:'', Some reason)])
         | Fulfilled None \<Rightarrow> Inl TypeError
         | Fulfilled (Some v) \<Rightarrow>
             (case na_articles v of
                Missing \<Rightarrow> Inr (combined, out @ [(''Failed to fetch from NewsAPI:'', None)])
              | NotAnArray \<Rightarrow> Inl TypeError
              | JArray elements \<Rightarrow>
                  (case map_throwing normalizeNewsApi elements of
                     Inl e \<Rightarrow> Inl e
                   | Inr normalized \<Rightarrow> Inr (combined @ normalized, out)))))"

definition processGNews ::
  "gnews_payload option settled \<Rightarrow> article list \<times> console \<Rightarrow>
   js_error + article list \<times> console"
where
  "processGNews r acc =
     (case acc of (combined, out) \<Rightarrow>
        (case r of
           Rejected reason \<Rightarrow>
             Inr (combined, out @ [(''Failed to fetch from GNews:'', Some reason)])
         | Fulfilled None \<Rightarrow> Inl TypeError
         | Fulfilled (Some v) \<Rightarrow>
             (case gn_articles v of
                Missing \<Rightarrow> Inr (combined, out @ [(''Failed to fetch from GNews:'', None)])
              | NotAnArray \<Rightarrow> Inl TypeError
              | JArray elements \<Rightarrow>
                  (case map_throwing normalizeGNews elements of
                     Inl e \<Rightarrow> Inl e
                   | Inr normalized \<Rightarrow> Inr (combined @ normalized, out)))))"

definition guardianResults :: "guardian_payload \<Rightarrow> guardian_article json_list" where
  "guardianResults v = (case g_response v of None \<Rightarrow> Missing | Some resp \<Rightarrow> g_results resp)"

definition processGuardian ::
  "guardian_payload option settled \<Rightarrow> article list \<times> console \<Rightarrow>
   js_error + article list \<times> console"
where
  "processGuardian r acc =
     (case acc of (combined, out) \<Rightarrow>
        (case r of
           Rejected reason \<Rightarrow>
             Inr (combined, out @ [(''Failed to fetch from The Guardian:'', Some reason)])
         | Fulfilled None \<Rightarrow> Inl TypeError
         | Fulfilled (Some v) \<Rightarrow>
             (case guardianResults v of
                Missing \<Rightarrow>
                  Inr (combined, out @ [(''Failed to fetch from The Guardian:'', None)])
              | NotAnArray \<Rightarrow> Inl TypeError
              | JArray elements \<Rightarrow>
                  (case map_throwing normalizeGuardian elements of
                     Inl e \<Rightarrow> Inl e
                   | Inr normalized \<Rightarrow> Inr (combined @ normalized, out)))))"

text \<open>
  The three blocks in the order of the source, starting from the empty array; an exception
  in one block skips the blocks after it. \<^verbatim>\<open>combinedArticles\<close> is the array as it stands
  before the deduplication (line 88 of the source).
\<close>

definition processResults ::
  "newsapi_payload option settled \<Rightarrow> gnews_payload option settled \<Rightarrow>
   guardian_payload option settled \<Rightarrow> js_error + article list \<times> console"
where
  "processResults r0 r1 r2 =
     (case processNewsApi r0 ([], []) of
        Inl e \<Rightarrow> Inl e
      | Inr acc0 \<Rightarrow>
          (case processGNews r1 acc0 of
             Inl e \<Rightarrow> Inl e
           | Inr acc1 \<Rightarrow> processGuardian r2 acc1))"

definition combinedArticles ::
  "newsapi_payload option settled \<Rightarrow> gnews_payload option settled \<Rightarrow>
   guardian_payload option settled \<Rightarrow> js_error + article list"
where
  "combinedArticles r0 r1 r2 =
     (case processResults r0 r1 r2 of Inl e \<Rightarrow> Inl e | Inr (combined, out) \<Rightarrow> Inr combined)"

text \<open>
  A JavaScript \<^verbatim>\<open>Map\<close> as the list of its entries in insertion order. \<^verbatim>\<open>set\<close> on a key
  that is present replaces the value and leaves the entry where it is; on a new key it
  appends the entry. \<^verbatim>\<open>new Map(entries)\<close> calls \<^verbatim>\<open>set\<close> for each entry in turn, and
  \<^verbatim>\<open>values()\<close> lists the values in insertion order. Keys are compared as strings.
\<close>

fun Map_set :: "'k \<Rightarrow> 'v \<Rightarrow> ('k \<times> 'v) list \<Rightarrow> ('k \<times> 'v) list" where
  "Map_set k v [] = [(k, v)]"
| "Map_set k v ((k', v') # m) = (if k' = k then (k', v) # m else (k', v') # Map_set k v m)"

definition new_Map :: "('k \<times> 'v) list \<Rightarrow> ('k \<times> 'v) list" where
  "new_Map entries = foldl (\<lambda>m (k, v). Map_set k v m) [] entries"

definition Map_values :: "('k \<times> 'v) list \<Rightarrow> 'v list" where
  "Map_values m = map snd m"

text \<open>
  \<^verbatim>\<open>Array.from(new Map(combinedArticles.map(item => [item.id, item])).values())\<close>
\<close>

definition uniqueArticles :: "article list \<Rightarrow> article list" where
  "uniqueArticles combined = Map_values (new_Map (map (\<lambda>item. (id_key item, item)) combined))"

text \<open>
  \<^verbatim>\<open>Array.prototype.sort(comparefn)\<close>. The comparator returns a number, \<open>None\<close> standing
  for \<^verbatim>\<open>NaN\<close>, which the sort reads as zero. For a comparator that orders the elements
  consistently the language fixes the result: the elements in ascending order of the
  comparator, elements that compare equal in their original order (the sort is stable).
  Insertion from the right computes that list: an element goes in front of the first
  later element it does not compare greater than. For a comparator that is not
  consistent the language leaves the order to the implementation, and the list computed
  here is one permitted outcome.
\<close>

definition SortCompare :: "('a \<Rightarrow> 'a \<Rightarrow> int option) \<Rightarrow> 'a \<Rightarrow> 'a \<Rightarrow> int" where
  "SortCompare cmp x y = (case cmp x y of None \<Rightarrow> 0 | Some v \<Rightarrow> v)"

fun insert_by :: "('a \<Rightarrow> 'a \<Rightarrow> int option) \<Rightarrow> 'a \<Rightarrow> 'a list \<Rightarrow> 'a list" where
  "insert_by cmp x [] = [x]"
| "insert_by cmp x (y # ys) =
     (if SortCompare cmp x y \<le> 0 then x # y # ys else y # insert_by cmp x ys)"

definition Array_sort :: "('a \<Rightarrow> 'a \<Rightarrow> int option) \<Rightarrow> 'a list \<Rightarrow> 'a list" where
  "Array_sort cmp xs = foldr (insert_by cmp) xs []"

text \<open>
  The comparator \<^verbatim>\<open>(a, b) => new Date(b.publishedAt) - new Date(a.publishedAt)\<close>. The
  parameter \<open>Date\<close> is the time value, in milliseconds since the epoch, that
  \<^verbatim>\<open>new Date(s)\<close> holds for the timestamp string \<open>s\<close>, and \<open>None\<close> when the string is
  not a date: the time value of an invalid date is \<^verbatim>\<open>NaN\<close>. Subtracting two
  \<^verbatim>\<open>Date\<close> objects subtracts their time values, and a difference with \<^verbatim>\<open>NaN\<close> is
  \<^verbatim>\<open>NaN\<close>. Time values are whole numbers of milliseconds, and the sort only reads
  the sign of the difference, which is the sign of the exact difference.
\<close>

definition byDateDesc :: "(string \<Rightarrow> int option) \<Rightarrow> article \<Rightarrow> article \<Rightarrow> int option" where
  "byDateDesc Date a b =
     (case Date (publishedAt b) of
        None \<Rightarrow> None
      | Some tb \<Rightarrow> (case Date (publishedAt a) of None \<Rightarrow> None | Some ta \<Rightarrow> Some (tb - ta)))"

text \<open>
  \<^verbatim>\<open>>=\<close> on two time values: false as soon as one of them is \<^verbatim>\<open>NaN\<close>.
\<close>

fun time_ge :: "int option \<Rightarrow> int option \<Rightarrow> bool" where
  "time_ge (Some s) (Some t) = (s \<ge> t)"
| "time_ge s t = False"

definition notOlder :: "(string \<Rightarrow> int option) \<Rightarrow> article \<Rightarrow> article \<Rightarrow> bool" where
  "notOlder Date a b = time_ge (Date (publishedAt a)) (Date (publishedAt b))"

text \<open>
  \<^verbatim>\<open>fetchAllNews\<close>, from the settled results to the state it leaves and the exception it
  ends with, if any. It starts with \<^verbatim>\<open>setLoading(true)\<close> and ends with
  \<^verbatim>\<open>setArticles(uniqueArticles); setLoading(false)\<close>; an exception on the way leaves the
  articles as they were and the loading flag set.
\<close>

definition fetchAllNews ::
  "(string \<Rightarrow> int option) \<Rightarrow> newsapi_payload option settled \<Rightarrow> gnews_payload option settled \<Rightarrow>
   guardian_payload option settled \<Rightarrow> app_state \<Rightarrow> app_state \<times> js_error option"
where
  "fetchAllNews Date r0 r1 r2 st =
     (case combinedArticles r0 r1 r2 of
        Inl e \<Rightarrow> (st\<lparr>loading := True\<rparr>, Some e)
      | Inr combined \<Rightarrow>
          (let unique = uniqueArticles combined;
               sorted = Array_sort (byDateDesc Date) unique
           in (st\<lparr>articles := sorted, loading := False\<rparr>, None)))"

section \<open>Bookmarks\<close>

text \<open>\<^verbatim>\<open>isBookmarked\<close> reads the bookmarks of the current state.\<close>

definition isBookmarked :: "app_state \<Rightarrow> string \<Rightarrow> bool" where
  "isBookmarked st articleId = list_ex (\<lambda>bookmark. id_key bookmark = articleId) (bookmarks st)"

text \<open>
  The updater that \<^verbatim>\<open>addBookmark\<close> hands to \<^verbatim>\<open>setBookmarks\<close>. The timestamp
  \<^verbatim>\<open>new Date().toISOString()\<close> is read from the clock; it is the argument \<open>now\<close>.
  \<^verbatim>\<open>{ ...article, bookmarkedAt: now }\<close> copies every property of the article and sets
  (or overwrites) \<^verbatim>\<open>bookmarkedAt\<close>.
\<close>

definition addBookmark :: "string \<Rightarrow> article \<Rightarrow> article list \<Rightarrow> article list" where
  "addBookmark now a prev =
     (let exists = list_ex (\<lambda>bookmark. id_key bookmark = id_key a) prev
      in if \<not> exists then prev @ [a\<lparr>bookmarkedAt := Some now\<rparr>] else prev)"

definition removeBookmark :: "string \<Rightarrow> article list \<Rightarrow> article list" where
  "removeBookmark articleId prev = filter (\<lambda>bookmark. id_key bookmark \<noteq> articleId) prev"

definition clearAllBookmarks :: "article list \<Rightarrow> article list" where
  "clearAllBookmarks prev = []"

section \<open>Theme\<close>

text \<open>
  \<^verbatim>\<open>useTheme\<close> keeps the theme as a string (read from local storage, default
  \<^verbatim>\<open>'light'\<close>); \<^verbatim>\<open>toggleTheme\<close> applies this updater to it. \<^verbatim>\<open>App\<close> keeps a boolean
  \<^verbatim>\<open>darkMode\<close> of its own, and \<^verbatim>\<open>toggleDarkMode\<close> sets it to its negation.
\<close>

definition toggleTheme :: "string \<Rightarrow> string" where
  "toggleTheme prevTheme = (if prevTheme = ''light'' then ''dark'' else ''light'')"

definition toggleDarkMode :: "app_state \<Rightarrow> app_state" where
  "toggleDarkMode st = st\<lparr>darkMode := \<not> darkMode st\<rparr>"

section \<open>Search filter and pagination\<close>

text \<open>
  \<^verbatim>\<open>String.prototype.toLowerCase\<close>. The case mapping is the one of the Unicode standard,
  which the language refers to; it is the parameter \<open>lower\<close>. The empty string has no
  character to map.
\<close>

definition toLowerCase :: "(string \<Rightarrow> string) \<Rightarrow> string \<Rightarrow> string" where
  "toLowerCase lower s = (if s = [] then [] else lower s)"

text \<open>
  \<^verbatim>\<open>String.prototype.includes\<close>: the search string occurs at some position of the string.
  (\<open>includes\<close> is a keyword of Isabelle, hence the name.)
\<close>

fun includesStr :: "string \<Rightarrow> string \<Rightarrow> bool" where
  "includesStr [] q = (q = [])"
| "includesStr (c # s) q = (prefix q (c # s) \<or> includesStr s q)"

text \<open>
  The callback of the filter,
  \<^verbatim>\<open>article.title.toLowerCase().includes(searchQuery.toLowerCase())\<close>. The search query is
  the text of an input field, always a string; the title is whatever the service
  delivered, and the method call throws when it is not a string.
\<close>

definition matchesQuery :: "(string \<Rightarrow> string) \<Rightarrow> string \<Rightarrow> article \<Rightarrow> js_error + bool" where
  "matchesQuery lower q a =
     (case title a of
        None \<Rightarrow> Inl TypeError
      | Some t \<Rightarrow> Inr (includesStr (toLowerCase lower t) (toLowerCase lower q)))"

text \<open>
  \<^verbatim>\<open>Array.prototype.filter\<close> with a callback that may throw: the elements are visited
  from the left, and the first exception ends the call.
\<close>

fun filter_throwing :: "('a \<Rightarrow> 'e + bool) \<Rightarrow> 'a list \<Rightarrow> 'e + 'a list" where
  "filter_throwing P [] = Inr []"
| "filter_throwing P (x # xs) =
     (case P x of
        Inl e \<Rightarrow> Inl e
      | Inr b \<Rightarrow>
          (case filter_throwing P xs of
             Inl e \<Rightarrow> Inl e
           | Inr ys \<Rightarrow> Inr (if b then x # ys else ys)))"

definition filteredArticles :: "(string \<Rightarrow> string) \<Rightarrow> app_state \<Rightarrow> js_error + article list" where
  "filteredArticles lower st =
     (if showBookmarks st
      then filter_throwing (matchesQuery lower (searchQuery st)) (bookmarks st)
      else filter_throwing (matchesQuery lower (searchQuery st)) (articles st))"

text \<open>
  The lines after the filter compute from the list it returned, the argument \<open>filtered\<close>
  of the next definitions; when the filter throws, the component does not render.

  The value of \<^verbatim>\<open>Math.ceil(length / itemsPerPage)\<close>. Division by zero does not fail in
  JavaScript: a positive length over zero is \<^verbatim>\<open>Infinity\<close>, and zero over zero is
  \<^verbatim>\<open>NaN\<close>; \<^verbatim>\<open>Math.ceil\<close> returns both unchanged. Every comparison with \<^verbatim>\<open>NaN\<close> is
  false. For a nonzero page size the quotient is taken in the reals: an array has fewer
  than \<open>2\<^sup>3\<^sup>2\<close> elements, and for such lengths the rounded quotient of JavaScript has the
  same ceiling as the exact one.
\<close>

datatype page_count = Finite int | Infinity | NaN

definition totalPages :: "article list \<Rightarrow> app_state \<Rightarrow> page_count" where
  "totalPages filtered st =
     (let len = length filtered; n = itemsPerPage st
      in if n = 0 then (if len = 0 then NaN else Infinity)
         else Finite \<lceil>real len / real_of_int n\<rceil>)"

fun page_le :: "int \<Rightarrow> page_count \<Rightarrow> bool" where
  "page_le p (Finite t) = (p \<le> t)"
| "page_le p Infinity = True"
| "page_le p NaN = False"

definition startIndex :: "app_state \<Rightarrow> int" where
  "startIndex st = (currentPage st - 1) * itemsPerPage st"

text \<open>
  \<^verbatim>\<open>Array.prototype.slice(start, end)\<close>: a negative bound counts from the end of the
  array, both bounds are clamped to the array, and an empty range gives the empty array.
\<close>

definition slice :: "'a list \<Rightarrow> int \<Rightarrow> int \<Rightarrow> 'a list" where
  "slice xs start stop =
     (let len = int (length xs);
          k = (if start < 0 then max (len + start) 0 else min start len);
          final = (if stop < 0 then max (len + stop) 0 else min stop len)
      in take (nat (final - k)) (drop (nat k) xs))"

definition currentArticles :: "article list \<Rightarrow> app_state \<Rightarrow> article list" where
  "currentArticles filtered st =
     slice filtered (startIndex st) (startIndex st + itemsPerPage st)"

text \<open>
  \<^verbatim>\<open>goToPage\<close>, a closure over the \<^verbatim>\<open>totalPages\<close> of the render that created it; the
  scrolling of the window that follows \<^verbatim>\<open>setCurrentPage\<close> is not part of the state.
\<close>

definition goToPage :: "int \<Rightarrow> page_count \<Rightarrow> app_state \<Rightarrow> app_state" where
  "goToPage page pages st =
     (if page \<ge> 1 \<and> page_le page pages then st\<lparr>currentPage := page\<rparr> else st)"

text \<open>What one render of \<^verbatim>\<open>App\<close> computes before it builds the page: the three lists and counts.\<close>

definition render ::
  "(string \<Rightarrow> string) \<Rightarrow> app_state \<Rightarrow> js_error + article list \<times> page_count \<times> article list"
where
  "render lower st =
     (case filteredArticles lower st of
        Inl e \<Rightarrow> Inl e
      | Inr filtered \<Rightarrow> Inr (filtered, totalPages filtered st, currentArticles filtered st))"

section \<open>Example data\<close>

text \<open>
  The case mapping on the letters A to Z, which is all of it on the titles and queries of
  the examples below.
\<close>

definition ascii_lower_char :: "char \<Rightarrow> char" where
  "ascii_lower_char c =
     (let n = (of_char c :: nat) in if 65 \<le> n \<and> n \<le> 90 then char_of (n + 32) else c)"

definition ascii_lower :: "string \<Rightarrow> string" where
  "ascii_lower s = map ascii_lower_char s"

text \<open>
  The time values of the three timestamps of the examples (the first of January, of March
  and of June 2024, at midnight UTC); no other string of the examples is a date.
\<close>

definition example_Date :: "string \<Rightarrow> int option" where
  "example_Date s =
     (if s = ''2024-01-01T00:00:00Z'' then Some 1704067200000
      else if s = ''2024-03-01T00:00:00Z'' then Some 1709251200000
      else if s = ''2024-06-01T00:00:00Z'' then Some 1717200000000
      else None)"

definition example_article :: "string \<Rightarrow> string \<Rightarrow> string \<Rightarrow> article" where
  "example_article i t d =
     \<lparr>id_key = i, title = Some t, url = i, imageUrl = None, source = ''Example'',
      publishedAt = d, apiSource = ''NewsAPI'', bookmarkedAt = None\<rparr>"

definition example_articles :: "article list" where
  "example_articles =
     [example_article ''u1'' ''AI one'' ''5'', example_article ''u2'' ''Two'' ''4'',
      example_article ''u3'' ''Three AI'' ''3'', example_article ''u4'' ''Four'' ''2'',
      example_article ''u5'' ''Five'' ''1'']"

definition example_duplicates :: "article list" where
  "example_duplicates =
     [example_article ''u1'' ''first'' ''1'', example_article ''u2'' ''other'' ''2'',
      example_article ''u1'' ''second'' ''3'']"

definition example_january :: article where
  "example_january = example_article ''j1'' ''January'' ''2024-01-01T00:00:00Z''"

definition example_undated :: article where
  "example_undated = example_article ''j2'' ''Undated'' ''not a date''"

definition example_june :: article where
  "example_june = example_article ''j3'' ''June'' ''2024-06-01T00:00:00Z''"

definition example_untitled :: article where
  "example_untitled = (example_article ''j4'' [] ''2024-03-01T00:00:00Z'')\<lparr>title := None\<rparr>"

definition example_newsapi_article :: newsapi_article where
  "example_newsapi_article =
     \<lparr>na_url = ''n1'', na_title = Some ''News'', na_urlToImage = None,
      na_source_name = Some ''Wire'', na_publishedAt = ''2024-01-01T00:00:00Z''\<rparr>"

definition example_gnews_article :: gnews_article where
  "example_gnews_article =
     \<lparr>gn_url = ''g1'', gn_title = Some ''Gnews'', gn_image = Some ''img'',
      gn_source_name = Some ''Daily'', gn_publishedAt = ''2024-06-01T00:00:00Z''\<rparr>"

definition example_guardian_article :: guardian_article where
  "example_guardian_article =
     \<lparr>g_id = ''t1'', g_webTitle = Some ''Guardian'', g_webUrl = ''w1'', g_thumbnail = None,
      g_webPublicationDate = ''2024-03-01T00:00:00Z''\<rparr>"

definition example_newsapi :: newsapi_payload where
  "example_newsapi = \<lparr>na_articles = JArray [Some example_newsapi_article]\<rparr>"

definition example_gnews :: gnews_payload where
  "example_gnews = \<lparr>gn_articles = JArray [Some example_gnews_article]\<rparr>"

definition example_guardian :: guardian_payload where
  "example_guardian =
     \<lparr>g_response = Some \<lparr>g_results = JArray [Some example_guardian_article]\<rparr>\<rparr>"

definition example_gnews_normalized :: article where
  "example_gnews_normalized =
     \<lparr>id_key = ''g1'', title = Some ''Gnews'', url = ''g1'', imageUrl = Some ''img'',
      source = ''Daily'', publishedAt = ''2024-06-01T00:00:00Z'', apiSource = ''GNews'',
      bookmarkedAt = None\<rparr>"

definition example_state :: app_state where
  "example_state = initial_state\<lparr>articles := example_articles, itemsPerPage := 2, currentPage := 2\<rparr>"

section \<open>Properties of the bookmark operations\<close>

lemma addBookmark_absent:
  "id_key a \<notin> set (map id_key prev) \<Longrightarrow> addBookmark now a prev = prev @ [a\<lparr>bookmarkedAt := Some now\<rparr>]"
  by (auto simp: addBookmark_def list_ex_iff image_iff)

lemma addBookmark_present:
  "id_key a \<in> set (map id_key prev) \<Longrightarrow> addBookmark now a prev = prev"
  by (auto simp: addBookmark_def list_ex_iff)

lemma removeBookmark_absent:
  "i \<notin> set (map id_key prev) \<Longrightarrow> removeBookmark i prev = prev"
  unfolding removeBookmark_def by (induction prev) auto

text \<open>
  C6. \<^verbatim>\<open>addBookmark\<close>: when no bookmark has the article's id, the result is the old list
  followed by one record that agrees with the article on all seven article fields and
  carries the timestamp in \<open>bookmarkedAt\<close>; when a bookmark with that id is present, the
  list is returned unchanged.
\<close>

theorem addBookmark_spec:
  "addBookmark now a prev =
     (if id_key a \<in> set (map id_key prev) then prev
      else prev @ [a\<lparr>bookmarkedAt := Some now\<rparr>])
   \<and> id_key (a\<lparr>bookmarkedAt := Some now\<rparr>) = id_key a
   \<and> title (a\<lparr>bookmarkedAt := Some now\<rparr>) = title a
   \<and> url (a\<lparr>bookmarkedAt := Some now\<rparr>) = url a
   \<and> imageUrl (a\<lparr>bookmarkedAt := Some now\<rparr>) = imageUrl a
   \<and> source (a\<lparr>bookmarkedAt := Some now\<rparr>) = source a
   \<and> publishedAt (a\<lparr>bookmarkedAt := Some now\<rparr>) = publishedAt a
   \<and> apiSource (a\<lparr>bookmarkedAt := Some now\<rparr>) = apiSource a
   \<and> bookmarkedAt (a\<lparr>bookmarkedAt := Some now\<rparr>) = Some now"
  by (simp add: addBookmark_absent addBookmark_present del: set_map)

text \<open>
  C7. On the pair light/dark, \<^verbatim>\<open>toggleTheme\<close> sends each value to the other one and is its
  own inverse; \<^verbatim>\<open>toggleDarkMode\<close> does the same on the boolean \<^verbatim>\<open>darkMode\<close>.
\<close>

theorem toggle_involution:
  "t \<in> {''light'', ''dark''} \<Longrightarrow>
     toggleTheme (toggleTheme t) = t
     \<and> toggleTheme t \<in> {''light'', ''dark''} \<and> toggleTheme t \<noteq> t
     \<and> toggleDarkMode (toggleDarkMode st) = st
     \<and> darkMode (toggleDarkMode st) = (\<not> darkMode st)"
  by (auto simp: toggleTheme_def toggleDarkMode_def)

theorem toggle_involution_witness:
  "''dark'' \<in> {''light'', ''dark''}
   \<and> toggleTheme (toggleTheme ''dark'') = ''dark'' \<and> toggleTheme ''dark'' = ''light''
   \<and> toggleDarkMode (toggleDarkMode initial_state) = initial_state
   \<and> darkMode (toggleDarkMode initial_state)"
  using toggle_involution [of "''dark''" initial_state]
  by (simp add: toggleTheme_def initial_state_def)

text \<open>
  C8. Adding an article whose id is not among the bookmarks and then removing that id gives
  back the original list.
\<close>

theorem add_then_remove:
  "id_key a \<notin> set (map id_key prev) \<Longrightarrow>
     removeBookmark (id_key a) (addBookmark now a prev) = prev"
proof -
  assume absent: "id_key a \<notin> set (map id_key prev)"
  then have "addBookmark now a prev = prev @ [a\<lparr>bookmarkedAt := Some now\<rparr>]"
    by (rule addBookmark_absent)
  moreover have "removeBookmark (id_key a) prev = prev"
    using absent by (rule removeBookmark_absent)
  ultimately show ?thesis
    by (simp add: removeBookmark_def)
qed

theorem add_then_remove_witness:
  "id_key (example_article ''u9'' ''Nine'' ''0'') \<notin> set (map id_key example_articles)
   \<and> removeBookmark ''u9''
        (addBookmark ''now'' (example_article ''u9'' ''Nine'' ''0'') example_articles)
       = example_articles"
  using add_then_remove [of "example_article ''u9'' ''Nine'' ''0''" example_articles "''now''"]
  by (simp add: example_articles_def example_article_def)

text \<open>
  C9. Pairwise-distinct bookmark ids are preserved by \<^verbatim>\<open>addBookmark\<close>,
  \<^verbatim>\<open>removeBookmark\<close> and \<^verbatim>\<open>clearAllBookmarks\<close>.
\<close>

theorem bookmark_ids_distinct:
  "distinct (map id_key prev) \<Longrightarrow>
     distinct (map id_key (addBookmark now a prev))
     \<and> distinct (map id_key (removeBookmark i prev))
     \<and> distinct (map id_key (clearAllBookmarks prev))"
  by (auto simp: addBookmark_def removeBookmark_def clearAllBookmarks_def list_ex_iff
      distinct_map_filter)

theorem bookmark_ids_distinct_witness:
  "distinct (map id_key example_articles)
   \<and> distinct (map id_key
        (addBookmark ''now'' (example_article ''u9'' ''Nine'' ''0'') example_articles))
   \<and> distinct (map id_key (removeBookmark ''u2'' example_articles))
   \<and> distinct (map id_key (clearAllBookmarks example_articles))"
  using bookmark_ids_distinct
    [of example_articles "''now''" "example_article ''u9'' ''Nine'' ''0''" "''u2''"]
  by (simp add: example_articles_def example_article_def)

section \<open>Properties of the search filter\<close>

lemma includesStr_sublist: "includesStr s q \<longleftrightarrow> sublist q s"
  by (induction s) (auto simp: sublist_Cons_right)

lemma filter_throwing_Inr:
  "(\<And>x. x \<in> set xs \<Longrightarrow> P x = Inr (Q x)) \<Longrightarrow> filter_throwing P xs = Inr (filter Q xs)"
  by (induction xs) simp_all

lemma filter_throwing_Inl:
  fixes P :: "'a \<Rightarrow> js_error + bool"
  shows "x \<in> set xs \<Longrightarrow> P x = Inl TypeError \<Longrightarrow> filter_throwing P xs = Inl TypeError"
proof (induction xs)
  case Nil
  then show ?case by simp
next
  case (Cons y ys)
  have only: "e = TypeError" for e :: js_error
    by (cases e)
  show ?case
  proof (cases "P y")
    case (Inl e)
    then show ?thesis by (simp add: only [of e])
  next
    case (Inr b)
    with Cons.prems have "x \<in> set ys"
      by auto
    then have "filter_throwing P ys = Inl TypeError"
      using Cons.IH Cons.prems(2) by simp
    with Inr show ?thesis by simp
  qed
qed

lemma matchesQuery_string:
  "title a = Some t \<Longrightarrow>
     matchesQuery lower q a = Inr (sublist (toLowerCase lower q) (toLowerCase lower t))"
  by (simp add: matchesQuery_def includesStr_sublist)

lemma filteredArticles_throws:
  assumes "a \<in> set (if showBookmarks st then bookmarks st else articles st)"
    and "title a = None"
  shows "filteredArticles lower st = Inl TypeError"
proof -
  have "matchesQuery lower (searchQuery st) a = Inl TypeError"
    using assms(2) by (simp add: matchesQuery_def)
  with assms(1) show ?thesis
    by (auto simp: filteredArticles_def intro: filter_throwing_Inl split: if_splits)
qed

text \<open>
  C4, as stated, fails: one article whose title is not a string (the service delivered
  null) makes the filter throw, so there is no filtered list at all, whatever the query.
\<close>

theorem filteredArticles_counterexample:
  "title example_untitled = None
   \<and> filteredArticles ascii_lower (initial_state\<lparr>articles := [example_untitled]\<rparr>) = Inl TypeError
   \<and> render ascii_lower (initial_state\<lparr>articles := [example_untitled]\<rparr>) = Inl TypeError"
  by (simp add: render_def filteredArticles_def matchesQuery_def initial_state_def
      example_untitled_def example_article_def)

text \<open>
  C4, amended. When every title of the selected list (the bookmarks when
  \<^verbatim>\<open>showBookmarks\<close> is set, the articles otherwise) is a string, the filter returns the
  selected list restricted, in its order, to the articles whose lowercased title has the
  lowercased search query as a contiguous substring; with the empty query it returns the
  selected list itself. This holds for every case mapping \<open>lower\<close>.
\<close>

theorem filteredArticles_spec:
  "\<forall>a \<in> set (if showBookmarks st then bookmarks st else articles st). title a \<noteq> None \<Longrightarrow>
     filteredArticles lower st =
       Inr (filter
         (\<lambda>a. case title a of
                 None \<Rightarrow> False
               | Some t \<Rightarrow> sublist (toLowerCase lower (searchQuery st)) (toLowerCase lower t))
         (if showBookmarks st then bookmarks st else articles st))
     \<and> (searchQuery st = [] \<longrightarrow>
          filteredArticles lower st
            = Inr (if showBookmarks st then bookmarks st else articles st))"
proof -
  let ?sel = "if showBookmarks st then bookmarks st else articles st"
  let ?Q = "\<lambda>a. case title a of
                 None \<Rightarrow> False
               | Some t \<Rightarrow> sublist (toLowerCase lower (searchQuery st)) (toLowerCase lower t)"
  assume strings: "\<forall>a \<in> set ?sel. title a \<noteq> None"
  have each: "matchesQuery lower (searchQuery st) a = Inr (?Q a)" if "a \<in> set ?sel" for a
  proof -
    from that strings obtain t where "title a = Some t"
      by blast
    then show ?thesis
      by (simp add: matchesQuery_string)
  qed
  have "filter_throwing (matchesQuery lower (searchQuery st)) ?sel = Inr (filter ?Q ?sel)"
    using each by (rule filter_throwing_Inr)
  then have main: "filteredArticles lower st = Inr (filter ?Q ?sel)"
    by (simp add: filteredArticles_def split: if_splits)
  have "filter ?Q ?sel = ?sel" if "searchQuery st = []"
  proof -
    have "?Q a" if "a \<in> set ?sel" for a
    proof -
      from that strings obtain t where "title a = Some t"
        by blast
      then show ?thesis
        using \<open>searchQuery st = []\<close> by (simp add: toLowerCase_def)
    qed
    then show ?thesis
      by (simp add: filter_id_conv)
  qed
  with main show ?thesis
    by simp
qed

theorem filteredArticles_spec_witness:
  "\<not> showBookmarks example_state
   \<and> list_all (\<lambda>a. title a \<noteq> None) (articles example_state)
   \<and> searchQuery example_state = []
   \<and> filteredArticles ascii_lower example_state = Inr example_articles"
  using filteredArticles_spec [of example_state ascii_lower, THEN conjunct2]
  by (simp add: example_state_def initial_state_def example_articles_def example_article_def)

lemma filteredArticles_example:
  "filteredArticles ascii_lower (example_state\<lparr>searchQuery := ''ai''\<rparr>) =
     Inr [example_article ''u1'' ''AI one'' ''5'', example_article ''u3'' ''Three AI'' ''3'']"
  by code_simp

section \<open>Properties of the pagination\<close>

lemma chunks_concat:
  "concat (map (\<lambda>k. take n (drop (k * n) xs)) [0..<m]) = take (m * n) xs"
proof (induction m)
  case 0
  show ?case by simp
next
  case (Suc m)
  have "take (m * n + n) xs = take (m * n) xs @ take n (drop (m * n) xs)"
    by (rule take_add)
  then show ?case using Suc by (simp add: add.commute)
qed

lemma slice_nonneg:
  "0 \<le> i \<Longrightarrow> 0 \<le> j \<Longrightarrow> slice xs i j = take (nat j - nat i) (drop (nat i) xs)"
  by (cases "nat i \<le> length xs") (auto simp: slice_def Let_def min_def nat_diff_distrib')

lemma take_drop_nth:
  "take n (drop k xs) = map ((!) xs) [k..<min (k + n) (length xs)]"
proof (rule nth_equalityI)
  show "length (take n (drop k xs)) = length (map ((!) xs) [k..<min (k + n) (length xs)])"
    by auto
next
  fix i
  assume "i < length (take n (drop k xs))"
  then have "i < n" and "k + i < length xs"
    by auto
  then show "take n (drop k xs) ! i = map ((!) xs) [k..<min (k + n) (length xs)] ! i"
    by simp
qed

lemma pages_cover:
  assumes "0 < n"
  shows "length xs \<le> nat \<lceil>real (length xs) / real_of_int n\<rceil> * nat n"
proof -
  have "real (length xs) \<le> of_int \<lceil>real (length xs) / real_of_int n\<rceil> * real_of_int n"
    using assms by (intro ceiling_divide_upper) simp
  then have "int (length xs) \<le> \<lceil>real (length xs) / real_of_int n\<rceil> * n"
    by (metis of_int_le_iff of_int_mult of_int_of_nat_eq)
  moreover have "0 \<le> real (length xs) / real_of_int n"
    using assms by simp
  then have "0 \<le> \<lceil>real (length xs) / real_of_int n\<rceil>"
    by simp
  ultimately have "nat (int (length xs)) \<le> nat \<lceil>real (length xs) / real_of_int n\<rceil> * nat n"
    by (simp add: nat_mult_distrib [symmetric] nat_mono del: nat_int)
  then show ?thesis by simp
qed

lemma currentArticles_take_drop:
  assumes "0 < itemsPerPage st" "1 \<le> currentPage st"
  shows "currentArticles fa st =
     take (nat (itemsPerPage st)) (drop ((nat (currentPage st) - 1) * nat (itemsPerPage st)) fa)"
proof -
  have s0: "0 \<le> startIndex st"
    using assms by (simp add: startIndex_def)
  have s0': "0 \<le> startIndex st + itemsPerPage st"
    using assms s0 by simp
  have s1: "nat (startIndex st) = (nat (currentPage st) - 1) * nat (itemsPerPage st)"
    using assms by (simp add: startIndex_def nat_mult_distrib nat_diff_distrib')
  have s2: "nat (startIndex st + itemsPerPage st) - nat (startIndex st) = nat (itemsPerPage st)"
    using assms s0 by (simp add: nat_add_distrib)
  have "currentArticles fa st =
      take (nat (startIndex st + itemsPerPage st) - nat (startIndex st))
        (drop (nat (startIndex st)) fa)"
    unfolding currentArticles_def by (rule slice_nonneg [OF s0 s0'])
  also have "\<dots> = take (nat (itemsPerPage st)) (drop (nat (startIndex st)) fa)"
    by (simp only: s2)
  finally show ?thesis
    by (simp only: s1)
qed

text \<open>
  C5. With a positive page size \<open>n\<close> and a current page \<open>p\<close> (page numbers start at 1), for
  every filtered list: \<^verbatim>\<open>totalPages\<close> is the ceiling of the length of the filtered list
  divided by \<open>n\<close>; the displayed page holds the elements of the filtered list at the
  indices from \<open>(p - 1) * n\<close> up to but excluding \<open>p * n\<close>, as far as the list reaches; it
  has at most \<open>n\<close> elements; and the pages \<open>1, \<dots>, totalPages\<close>, one after the other, are
  the filtered list.
\<close>

theorem pagination_spec:
  "0 < itemsPerPage st \<Longrightarrow> 1 \<le> currentPage st \<Longrightarrow>
     totalPages fa st = Finite \<lceil>real (length fa) / real_of_int (itemsPerPage st)\<rceil>
     \<and> currentArticles fa st =
         map ((!) fa)
           [nat ((currentPage st - 1) * itemsPerPage st) ..<
            min (nat (currentPage st * itemsPerPage st)) (length fa)]
     \<and> int (length (currentArticles fa st)) \<le> itemsPerPage st
     \<and> concat (map (\<lambda>p. currentArticles fa (st\<lparr>currentPage := int p\<rparr>))
           [1 ..< Suc (nat \<lceil>real (length fa) / real_of_int (itemsPerPage st)\<rceil>)])
         = fa"
proof (intro conjI)
  assume n: "0 < itemsPerPage st" and p: "1 \<le> currentPage st"
  let ?n = "nat (itemsPerPage st)"
  let ?t = "nat \<lceil>real (length fa) / real_of_int (itemsPerPage st)\<rceil>"
  show "totalPages fa st = Finite \<lceil>real (length fa) / real_of_int (itemsPerPage st)\<rceil>"
    using n by (simp add: totalPages_def)
  have page: "currentArticles fa st = take ?n (drop ((nat (currentPage st) - 1) * ?n) fa)"
    using n p by (rule currentArticles_take_drop)
  have lo: "nat ((currentPage st - 1) * itemsPerPage st) = (nat (currentPage st) - 1) * ?n"
    using n p by (simp add: nat_mult_distrib nat_diff_distrib')
  have "currentPage st * itemsPerPage st = (currentPage st - 1) * itemsPerPage st + itemsPerPage st"
    by (simp add: left_diff_distrib)
  moreover have "0 \<le> (currentPage st - 1) * itemsPerPage st"
    using n p by simp
  ultimately have "nat (currentPage st * itemsPerPage st) =
      nat ((currentPage st - 1) * itemsPerPage st) + ?n"
    using n by (simp add: nat_add_distrib)
  then have hi: "nat (currentPage st * itemsPerPage st) = (nat (currentPage st) - 1) * ?n + ?n"
    by (simp only: lo)
  show "currentArticles fa st =
      map ((!) fa) [nat ((currentPage st - 1) * itemsPerPage st) ..<
        min (nat (currentPage st * itemsPerPage st)) (length fa)]"
    unfolding page lo hi by (rule take_drop_nth)
  show "int (length (currentArticles fa st)) \<le> itemsPerPage st"
    unfolding page using n by simp
  have each: "currentArticles fa (st\<lparr>currentPage := int (Suc k)\<rparr>) = take ?n (drop (k * ?n) fa)" for k
  proof -
    let ?st = "st\<lparr>currentPage := int (Suc k)\<rparr>"
    have "0 < itemsPerPage ?st"
      using n by simp
    moreover have "1 \<le> currentPage ?st"
      by simp
    ultimately have "currentArticles fa ?st =
        take (nat (itemsPerPage ?st)) (drop ((nat (currentPage ?st) - 1) * nat (itemsPerPage ?st)) fa)"
      by (rule currentArticles_take_drop)
    moreover have "nat (currentPage ?st) - 1 = k"
      by simp
    ultimately show ?thesis
      by simp
  qed
  have "map (\<lambda>p. currentArticles fa (st\<lparr>currentPage := int p\<rparr>)) [1 ..< Suc ?t]
      = map (\<lambda>k. take ?n (drop (k * ?n) fa)) [0 ..< ?t]"
    unfolding map_Suc_upt [symmetric] One_nat_def by (simp add: each del: of_nat_Suc)
  then have "concat (map (\<lambda>p. currentArticles fa (st\<lparr>currentPage := int p\<rparr>)) [1 ..< Suc ?t])
      = take (?t * ?n) fa"
    by (simp only: chunks_concat)
  also have "\<dots> = fa"
    using pages_cover [OF n, of fa] by simp
  finally show "concat (map (\<lambda>p. currentArticles fa (st\<lparr>currentPage := int p\<rparr>)) [1 ..< Suc ?t]) = fa" .
qed

theorem pagination_spec_witness:
  "0 < itemsPerPage example_state \<and> 1 \<le> currentPage example_state
   \<and> totalPages example_articles example_state = Finite 3
   \<and> currentArticles example_articles example_state =
       [example_article ''u3'' ''Three AI'' ''3'', example_article ''u4'' ''Four'' ''2'']"
  using pagination_spec [of example_state example_articles]
  by (simp add: example_state_def initial_state_def example_articles_def)

text \<open>
  C10. \<^verbatim>\<open>goToPage\<close> sets the current page to the requested page \<open>p\<close> when
  \<open>1 \<le> p \<le> totalPages\<close> and leaves the state as it is for every other \<open>p\<close>, so for every
  \<open>p\<close> when \<^verbatim>\<open>totalPages\<close> is 0; nothing but the current page is ever changed. This holds
  for the page count of every filtered list.
\<close>

theorem goToPage_spec:
  "currentPage (goToPage p (totalPages fa st) st)
     = (if 1 \<le> p \<and> page_le p (totalPages fa st) then p else currentPage st)
   \<and> (totalPages fa st = Finite t \<longrightarrow>
        currentPage (goToPage p (totalPages fa st) st)
          = (if 1 \<le> p \<and> p \<le> t then p else currentPage st))
   \<and> (totalPages fa st = Finite t \<longrightarrow> \<not> (1 \<le> p \<and> p \<le> t) \<longrightarrow>
        goToPage p (totalPages fa st) st = st)
   \<and> (totalPages fa st = Finite 0 \<longrightarrow> goToPage p (totalPages fa st) st = st)
   \<and> goToPage p (totalPages fa st) st
       = st\<lparr>currentPage := currentPage (goToPage p (totalPages fa st) st)\<rparr>"
  by (simp add: goToPage_def)

theorem goToPage_spec_witness:
  "totalPages example_articles example_state = Finite 3
   \<and> currentPage (goToPage 3 (totalPages example_articles example_state) example_state) = 3
   \<and> \<not> (1 \<le> (4::int) \<and> (4::int) \<le> 3)
   \<and> goToPage 4 (totalPages example_articles example_state) example_state = example_state
   \<and> totalPages [] initial_state = Finite 0
   \<and> goToPage 1 (totalPages [] initial_state) initial_state = initial_state"
  using goToPage_spec [of 3 example_articles example_state 3]
    goToPage_spec [of 4 example_articles example_state 3]
    goToPage_spec [of 1 "[]" initial_state 0]
  by (simp add: example_state_def initial_state_def totalPages_def example_articles_def)

text \<open>
  The current page is 1 at the start, and \<^verbatim>\<open>goToPage\<close> never moves it below 1: the only
  other writes to it in the source, \<^verbatim>\<open>setCurrentPage(1)\<close>, store 1.
\<close>

lemma currentPage_positive:
  "currentPage initial_state = 1
   \<and> (1 \<le> currentPage st \<longrightarrow> 1 \<le> currentPage (goToPage p pages st))"
  by (simp add: initial_state_def goToPage_def)

lemma render_example:
  "render ascii_lower example_state =
     Inr (example_articles, Finite 3,
       [example_article ''u3'' ''Three AI'' ''3'', example_article ''u4'' ''Four'' ''2''])"
  by code_simp

section \<open>Properties of the deduplication\<close>

lemma Map_set_keys:
  "map fst (Map_set k v m) = (if k \<in> set (map fst m) then map fst m else map fst m @ [k])"
proof (induction m)
  case Nil
  show ?case by simp
next
  case (Cons e m)
  obtain k' v' where e: "e = (k', v')"
    by (cases e)
  show ?case
    using Cons by (cases "k' = k") (simp_all add: e del: set_map)
qed

lemma Map_set_key_set: "set (map fst (Map_set k v m)) = insert k (set (map fst m))"
  by (auto simp add: Map_set_keys simp del: set_map)

lemma Map_set_lookup: "map_of (Map_set k v m) = (map_of m)(k \<mapsto> v)"
  by (induction m) (auto simp: fun_eq_iff)

lemma Map_set_distinct: "distinct (map fst m) \<Longrightarrow> distinct (map fst (Map_set k v m))"
  by (simp add: Map_set_keys)

lemma fold_Map_set_distinct:
  "distinct (map fst m) \<Longrightarrow> distinct (map fst (foldl (\<lambda>m (k, v). Map_set k v m) m es))"
  by (induction es arbitrary: m) (auto simp: Map_set_distinct)

lemma fold_Map_set_keys:
  "set (map fst (foldl (\<lambda>m (k, v). Map_set k v m) m es)) = set (map fst m) \<union> set (map fst es)"
proof (induction es arbitrary: m)
  case Nil
  show ?case by simp
next
  case (Cons e es)
  obtain k v where e: "e = (k, v)"
    by (cases e)
  show ?case
    by (simp add: e Cons Map_set_key_set del: set_map)
qed

lemma fold_Map_set_lookup:
  "map_of (foldl (\<lambda>m (k, v). Map_set k v m) m es) = map_of m ++ map_of (rev es)"
  by (induction es arbitrary: m) (auto simp: Map_set_lookup)

lemma new_Map_distinct: "distinct (map fst (new_Map es))"
  by (simp add: new_Map_def fold_Map_set_distinct)

lemma new_Map_keys: "set (map fst (new_Map es)) = set (map fst es)"
  by (simp add: new_Map_def fold_Map_set_keys del: set_map)

lemma new_Map_lookup: "map_of (new_Map es) = map_of (rev es)"
  by (simp add: new_Map_def fold_Map_set_lookup)

lemma map_of_keyed:
  "map_of (map (\<lambda>item. (id_key item, item)) xs) k = List.find (\<lambda>item. id_key item = k) xs"
  by (induction xs) auto

lemma new_Map_entry:
  "(k, v) \<in> set (new_Map (map (\<lambda>item. (id_key item, item)) xs))
     \<longleftrightarrow> List.find (\<lambda>item. id_key item = k) (rev xs) = Some v"
proof -
  let ?m = "new_Map (map (\<lambda>item. (id_key item, item)) xs)"
  have "(k, v) \<in> set ?m \<longleftrightarrow> map_of ?m k = Some v"
    using new_Map_distinct [of "map (\<lambda>item. (id_key item, item)) xs"] by simp
  also have "map_of ?m k = List.find (\<lambda>item. id_key item = k) (rev xs)"
    unfolding new_Map_lookup rev_map by (rule map_of_keyed)
  finally show ?thesis .
qed

lemma find_Some_holds: "List.find P xs = Some x \<Longrightarrow> P x \<and> x \<in> set xs"
  by (induction xs) (auto split: if_splits)

lemma new_Map_values_keys:
  "map id_key (Map_values (new_Map (map (\<lambda>item. (id_key item, item)) xs)))
     = map fst (new_Map (map (\<lambda>item. (id_key item, item)) xs))"
proof -
  have "id_key (snd e) = fst e"
    if "e \<in> set (new_Map (map (\<lambda>item. (id_key item, item)) xs))" for e
  proof -
    from that have "List.find (\<lambda>item. id_key item = fst e) (rev xs) = Some (snd e)"
      by (simp add: new_Map_entry [symmetric])
    then show ?thesis
      by (auto dest: find_Some_holds)
  qed
  then show ?thesis
    by (simp add: Map_values_def)
qed

lemma uniqueArticles_keys:
  "map id_key (uniqueArticles xs) = map fst (new_Map (map (\<lambda>item. (id_key item, item)) xs))"
  unfolding uniqueArticles_def by (rule new_Map_values_keys)

lemma uniqueArticles_distinct: "distinct (map id_key (uniqueArticles xs))"
  unfolding uniqueArticles_keys by (rule new_Map_distinct)

lemma uniqueArticles_ids: "set (map id_key (uniqueArticles xs)) = set (map id_key xs)"
proof -
  have "set (map fst (new_Map (map (\<lambda>item. (id_key item, item)) xs)))
      = set (map fst (map (\<lambda>item. (id_key item, item)) xs))"
    by (rule new_Map_keys)
  then show ?thesis
    unfolding uniqueArticles_keys by (simp add: comp_def)
qed

lemma uniqueArticles_last:
  assumes "a \<in> set (uniqueArticles xs)"
  shows "List.find (\<lambda>b. id_key b = id_key a) (rev xs) = Some a"
proof -
  from assms obtain k where "(k, a) \<in> set (new_Map (map (\<lambda>item. (id_key item, item)) xs))"
    by (auto simp: uniqueArticles_def Map_values_def)
  then have found: "List.find (\<lambda>b. id_key b = k) (rev xs) = Some a"
    by (simp add: new_Map_entry)
  then have "id_key a = k"
    by (auto dest: find_Some_holds)
  with found show ?thesis
    by simp
qed

text \<open>
  C1. The ids of the deduplicated list are pairwise distinct, they are the ids of the input,
  and every record of the output is the last record of the input, in concatenation order,
  that carries its id: the first one with that id found when the input is read backwards.
\<close>

theorem uniqueArticles_spec:
  "distinct (map id_key (uniqueArticles xs))
   \<and> set (map id_key (uniqueArticles xs)) = set (map id_key xs)
   \<and> (\<forall>a \<in> set (uniqueArticles xs).
         List.find (\<lambda>b. id_key b = id_key a) (rev xs) = Some a)"
  by (intro conjI ballI uniqueArticles_distinct uniqueArticles_ids uniqueArticles_last)

theorem uniqueArticles_spec_witness:
  "uniqueArticles example_duplicates =
     [example_article ''u1'' ''second'' ''3'', example_article ''u2'' ''other'' ''2'']
   \<and> example_article ''u1'' ''second'' ''3'' \<in> set (uniqueArticles example_duplicates)
   \<and> List.find (\<lambda>b. id_key b = ''u1'') (rev example_duplicates)
       = Some (example_article ''u1'' ''second'' ''3'')"
  using uniqueArticles_spec [of example_duplicates]
  by (simp add: example_duplicates_def uniqueArticles_def new_Map_def Map_values_def
      example_article_def)

section \<open>Properties of the sort\<close>

lemma mset_insert_by: "mset (insert_by cmp x ys) = add_mset x (mset ys)"
  by (induction ys) auto

lemma mset_Array_sort: "mset (Array_sort cmp xs) = mset xs"
  unfolding Array_sort_def by (induction xs) (auto simp: mset_insert_by)

lemma set_insert_by: "set (insert_by cmp x ys) = insert x (set ys)"
  by (induction ys) auto

lemma set_Array_sort: "set (Array_sort cmp xs) = set xs"
  using mset_Array_sort [of cmp xs] by (rule mset_eq_setD)

lemma SortCompare_dates:
  "Date (publishedAt a) = Some ta \<Longrightarrow> Date (publishedAt b) = Some tb \<Longrightarrow>
     SortCompare (byDateDesc Date) a b = tb - ta"
  by (simp add: SortCompare_def byDateDesc_def)

lemma notOlder_dates:
  "Date (publishedAt a) = Some ta \<Longrightarrow> Date (publishedAt b) = Some tb \<Longrightarrow>
     notOlder Date a b \<longleftrightarrow> tb \<le> ta"
  by (simp add: notOlder_def)

lemma sorted_insert_by:
  assumes "Date (publishedAt x) \<noteq> None"
    and "\<forall>y \<in> set ys. Date (publishedAt y) \<noteq> None"
    and "sorted_wrt (notOlder Date) ys"
  shows "sorted_wrt (notOlder Date) (insert_by (byDateDesc Date) x ys)"
  using assms
proof (induction ys)
  case Nil
  show ?case by simp
next
  case (Cons y ys)
  from Cons.prems obtain tx ty
    where tx: "Date (publishedAt x) = Some tx" and ty: "Date (publishedAt y) = Some ty"
    by auto
  have cmp: "SortCompare (byDateDesc Date) x y = ty - tx"
    using tx ty by (rule SortCompare_dates)
  have below: "notOlder Date y z" if "z \<in> set ys" for z
    using that Cons.prems(3) by simp
  show ?case
  proof (cases "ty \<le> tx")
    case True
    have "notOlder Date x y"
      using True by (simp add: notOlder_dates [OF tx ty])
    moreover have "notOlder Date x z" if "z \<in> set ys" for z
    proof -
      from that Cons.prems(2) obtain tz where tz: "Date (publishedAt z) = Some tz"
        by auto
      from below [OF that] have "tz \<le> ty"
        by (simp add: notOlder_dates [OF ty tz])
      with True show ?thesis
        by (simp add: notOlder_dates [OF tx tz])
    qed
    ultimately show ?thesis
      using Cons.prems(3) True by (simp add: cmp)
  next
    case False
    then have "notOlder Date y x"
      by (simp add: notOlder_dates [OF ty tx])
    moreover have "sorted_wrt (notOlder Date) (insert_by (byDateDesc Date) x ys)"
      using Cons by simp
    ultimately show ?thesis
      using Cons.prems(3) False by (auto simp: cmp set_insert_by)
  qed
qed

lemma sorted_Array_sort:
  "\<forall>a \<in> set xs. Date (publishedAt a) \<noteq> None \<Longrightarrow>
     sorted_wrt (notOlder Date) (Array_sort (byDateDesc Date) xs)"
proof (induction xs)
  case Nil
  show ?case by (simp add: Array_sort_def)
next
  case (Cons x xs)
  have "sorted_wrt (notOlder Date) (insert_by (byDateDesc Date) x (Array_sort (byDateDesc Date) xs))"
    using Cons by (intro sorted_insert_by) (simp_all add: set_Array_sort)
  then show ?case
    by (simp add: Array_sort_def)
qed

text \<open>The sort is stable: articles of one time value keep their order.\<close>

lemma filter_insert_by:
  "filter (\<lambda>a. Date (publishedAt a) = Some t) (insert_by (byDateDesc Date) x ys)
     = filter (\<lambda>a. Date (publishedAt a) = Some t) (x # ys)"
  by (induction ys) (auto simp: SortCompare_def byDateDesc_def split: option.splits)

lemma Array_sort_stable:
  "filter (\<lambda>a. Date (publishedAt a) = Some t) (Array_sort (byDateDesc Date) xs)
     = filter (\<lambda>a. Date (publishedAt a) = Some t) xs"
  unfolding Array_sort_def by (induction xs) (simp_all add: filter_insert_by)

text \<open>
  C2, as stated, fails: an article whose \<^verbatim>\<open>publishedAt\<close> is not a date has the time value
  \<^verbatim>\<open>NaN\<close>, the comparator returns \<^verbatim>\<open>NaN\<close> for every pair it is in, and the sort leaves
  the deduplicated list [January, undated, June] as it is, the January article in front
  of the June one. No order of the three articles has every article at least as recent as
  the next one, since a comparison with \<^verbatim>\<open>NaN\<close> is false.
\<close>

theorem sorted_by_date_counterexample:
  "uniqueArticles [example_january, example_undated, example_june]
     = [example_january, example_undated, example_june]
   \<and> Array_sort (byDateDesc example_Date) [example_january, example_undated, example_june]
     = [example_january, example_undated, example_june]
   \<and> \<not> successively (notOlder example_Date) [example_january, example_undated, example_june]
   \<and> \<not> notOlder example_Date example_january example_june
   \<and> \<not> successively (notOlder example_Date) [example_january, example_june, example_undated]
   \<and> \<not> successively (notOlder example_Date) [example_undated, example_january, example_june]
   \<and> \<not> successively (notOlder example_Date) [example_undated, example_june, example_january]
   \<and> \<not> successively (notOlder example_Date) [example_june, example_january, example_undated]
   \<and> \<not> successively (notOlder example_Date) [example_june, example_undated, example_january]"
  by code_simp

text \<open>
  C2, amended. For every deduplicated list of articles whose \<^verbatim>\<open>publishedAt\<close> values are
  all dates, the sorted list is in descending order of the publication time: each article
  is at least as recent as every article after it, so in particular as the one right
  after it. It is a rearrangement of the deduplicated list, and it is the list that
  \<^verbatim>\<open>fetchAllNews\<close> stores when the deduplicated list is the one it computed.
\<close>

theorem sorted_by_date_spec:
  "\<forall>a \<in> set xs. Date (publishedAt a) \<noteq> None \<Longrightarrow>
     sorted_wrt (notOlder Date) (Array_sort (byDateDesc Date) xs)
     \<and> successively (notOlder Date) (Array_sort (byDateDesc Date) xs)
     \<and> mset (Array_sort (byDateDesc Date) xs) = mset xs
     \<and> (combinedArticles r0 r1 r2 = Inr combined \<and> uniqueArticles combined = xs \<longrightarrow>
          fetchAllNews Date r0 r1 r2 st
            = (st\<lparr>articles := Array_sort (byDateDesc Date) xs, loading := False\<rparr>, None))"
  by (simp add: fetchAllNews_def sorted_Array_sort mset_Array_sort successively_if_sorted_wrt)

theorem sorted_by_date_spec_witness:
  "example_Date (publishedAt example_january) \<noteq> None
   \<and> example_Date (publishedAt example_june) \<noteq> None
   \<and> Array_sort (byDateDesc example_Date) [example_january, example_june]
       = [example_june, example_january]
   \<and> sorted_wrt (notOlder example_Date) [example_june, example_january]
   \<and> successively (notOlder example_Date) [example_june, example_january]"
proof -
  have valid: "\<forall>a \<in> set [example_january, example_june]. example_Date (publishedAt a) \<noteq> None"
    by code_simp
  have sorted: "Array_sort (byDateDesc example_Date) [example_january, example_june]
      = [example_june, example_january]"
    by code_simp
  from sorted_by_date_spec [OF valid] valid sorted show ?thesis
    by simp
qed

section \<open>Properties of the aggregation\<close>

lemma only_TypeError: "e = TypeError"
  by (cases e)

lemma map_throwing_Inr:
  "(\<And>x. x \<in> set xs \<Longrightarrow> f x = Inr (g x)) \<Longrightarrow> map_throwing f xs = Inr (map g xs)"
  by (induction xs) simp_all

lemma map_throwing_Inl:
  fixes f :: "'a \<Rightarrow> js_error + 'b"
  shows "x \<in> set xs \<Longrightarrow> f x = Inl TypeError \<Longrightarrow> map_throwing f xs = Inl TypeError"
proof (induction xs)
  case Nil
  then show ?case by simp
next
  case (Cons y ys)
  show ?case
  proof (cases "f y")
    case (Inl e)
    then show ?thesis by (simp add: only_TypeError [of e])
  next
    case (Inr b)
    with Cons.prems have "x \<in> set ys"
      by auto
    then have "map_throwing f ys = Inl TypeError"
      using Cons.IH Cons.prems(2) by simp
    with Inr show ?thesis by simp
  qed
qed

text \<open>
  A block adds to what is there already: its effect on any \<^verbatim>\<open>combinedArticles\<close> and
  console is its effect on the empty ones, appended.
\<close>

lemma processNewsApi_append:
  "processNewsApi r (combined, out) =
     (case processNewsApi r ([], []) of
        Inl e \<Rightarrow> Inl e
      | Inr (as, lines) \<Rightarrow> Inr (combined @ as, out @ lines))"
  by (simp add: processNewsApi_def split: settled.splits option.splits json_list.splits sum.splits)

lemma processGNews_append:
  "processGNews r (combined, out) =
     (case processGNews r ([], []) of
        Inl e \<Rightarrow> Inl e
      | Inr (as, lines) \<Rightarrow> Inr (combined @ as, out @ lines))"
  by (simp add: processGNews_def split: settled.splits option.splits json_list.splits sum.splits)

lemma processGuardian_append:
  "processGuardian r (combined, out) =
     (case processGuardian r ([], []) of
        Inl e \<Rightarrow> Inl e
      | Inr (as, lines) \<Rightarrow> Inr (combined @ as, out @ lines))"
  by (simp add: processGuardian_def split: settled.splits option.splits json_list.splits sum.splits)

text \<open>
  When no block throws, the merged list is the concatenation, in the order NewsAPI, GNews,
  Guardian, of what each block contributes, so the articles of every source are in it.
\<close>

lemma processResults_concat:
  assumes "processNewsApi r0 ([], []) = Inr (as0, lines0)"
    and "processGNews r1 ([], []) = Inr (as1, lines1)"
    and "processGuardian r2 ([], []) = Inr (as2, lines2)"
  shows "processResults r0 r1 r2 = Inr (as0 @ as1 @ as2, lines0 @ lines1 @ lines2)"
    and "combinedArticles r0 r1 r2 = Inr (as0 @ as1 @ as2)"
proof -
  show "processResults r0 r1 r2 = Inr (as0 @ as1 @ as2, lines0 @ lines1 @ lines2)"
    by (simp add: processResults_def assms(1) processGNews_append [of r1 as0 lines0] assms(2)
        processGuardian_append [of r2 "as0 @ as1" "lines0 @ lines1"] assms(3))
  then show "combinedArticles r0 r1 r2 = Inr (as0 @ as1 @ as2)"
    by (simp add: combinedArticles_def)
qed

text \<open>What a block contributes, by the shape of its result: the cases that do not throw.\<close>

lemma processNewsApi_cases:
  "processNewsApi (Rejected reason) ([], []) = Inr ([], [(''Failed to fetch from NewsAPI:'', Some reason)])"
  "na_articles v = Missing \<Longrightarrow>
     processNewsApi (Fulfilled (Some v)) ([], []) = Inr ([], [(''Failed to fetch from NewsAPI:'', None)])"
  "na_articles v = JArray elements \<Longrightarrow> map_throwing normalizeNewsApi elements = Inr as \<Longrightarrow>
     processNewsApi (Fulfilled (Some v)) ([], []) = Inr (as, [])"
  by (simp_all add: processNewsApi_def)

lemma processGNews_cases:
  "processGNews (Rejected reason) ([], []) = Inr ([], [(''Failed to fetch from GNews:'', Some reason)])"
  "gn_articles v = Missing \<Longrightarrow>
     processGNews (Fulfilled (Some v)) ([], []) = Inr ([], [(''Failed to fetch from GNews:'', None)])"
  "gn_articles v = JArray elements \<Longrightarrow> map_throwing normalizeGNews elements = Inr as \<Longrightarrow>
     processGNews (Fulfilled (Some v)) ([], []) = Inr (as, [])"
  by (simp_all add: processGNews_def)

lemma processGuardian_cases:
  "processGuardian (Rejected reason) ([], [])
     = Inr ([], [(''Failed to fetch from The Guardian:'', Some reason)])"
  "guardianResults v = Missing \<Longrightarrow>
     processGuardian (Fulfilled (Some v)) ([], [])
       = Inr ([], [(''Failed to fetch from The Guardian:'', None)])"
  "guardianResults v = JArray elements \<Longrightarrow> map_throwing normalizeGuardian elements = Inr as \<Longrightarrow>
     processGuardian (Fulfilled (Some v)) ([], []) = Inr (as, [])"
  by (simp_all add: processGuardian_def)

text \<open>
  The cases that throw: a null body, a truthy \<^verbatim>\<open>articles\<close> that is not an array, an
  element that cannot be normalized. One of them in any of the three results ends
  \<^verbatim>\<open>fetchAllNews\<close> with the exception, whatever the other two results are, and no article
  is stored.
\<close>

lemma processNewsApi_throws:
  "processNewsApi (Fulfilled None) acc = Inl TypeError"
  "na_articles v = NotAnArray \<Longrightarrow> processNewsApi (Fulfilled (Some v)) acc = Inl TypeError"
  "na_articles v = JArray elements \<Longrightarrow> x \<in> set elements \<Longrightarrow> normalizeNewsApi x = Inl TypeError \<Longrightarrow>
     processNewsApi (Fulfilled (Some v)) acc = Inl TypeError"
  by (cases acc; simp add: processNewsApi_def map_throwing_Inl)+

lemma processGNews_throws:
  "processGNews (Fulfilled None) acc = Inl TypeError"
  "gn_articles v = NotAnArray \<Longrightarrow> processGNews (Fulfilled (Some v)) acc = Inl TypeError"
  "gn_articles v = JArray elements \<Longrightarrow> x \<in> set elements \<Longrightarrow> normalizeGNews x = Inl TypeError \<Longrightarrow>
     processGNews (Fulfilled (Some v)) acc = Inl TypeError"
  by (cases acc; simp add: processGNews_def map_throwing_Inl)+

lemma processGuardian_throws:
  "processGuardian (Fulfilled None) acc = Inl TypeError"
  "guardianResults v = NotAnArray \<Longrightarrow> processGuardian (Fulfilled (Some v)) acc = Inl TypeError"
  "guardianResults v = JArray elements \<Longrightarrow> x \<in> set elements \<Longrightarrow>
     normalizeGuardian x = Inl TypeError \<Longrightarrow>
     processGuardian (Fulfilled (Some v)) acc = Inl TypeError"
  by (cases acc; simp add: processGuardian_def map_throwing_Inl)+

lemma combinedArticles_throws:
  assumes "processNewsApi r0 ([], []) = Inl TypeError
    \<or> processGNews r1 ([], []) = Inl TypeError
    \<or> processGuardian r2 ([], []) = Inl TypeError"
  shows "combinedArticles r0 r1 r2 = Inl TypeError"
    and "fetchAllNews Date r0 r1 r2 st = (st\<lparr>loading := True\<rparr>, Some TypeError)"
proof -
  have "processResults r0 r1 r2 = Inl TypeError"
  proof (cases "processNewsApi r0 ([], [])")
    case (Inl e)
    then show ?thesis
      by (simp add: processResults_def only_TypeError [of e])
  next
    case n: (Inr acc0)
    obtain as0 lines0 where acc0: "acc0 = (as0, lines0)"
      by (cases acc0)
    show ?thesis
    proof (cases "processGNews r1 ([], [])")
      case (Inl e)
      then show ?thesis
        by (simp add: processResults_def n acc0 processGNews_append [of r1 as0 lines0]
            only_TypeError [of e])
    next
      case g: (Inr acc1)
      obtain as1 lines1 where acc1: "acc1 = (as1, lines1)"
        by (cases acc1)
      from assms n g have "processGuardian r2 ([], []) = Inl TypeError"
        by simp
      then show ?thesis
        by (simp add: processResults_def n acc0 processGNews_append [of r1 as0 lines0] g acc1
            processGuardian_append [of r2 "as0 @ as1" "lines0 @ lines1"])
    qed
  qed
  then show "combinedArticles r0 r1 r2 = Inl TypeError"
    by (simp add: combinedArticles_def)
  then show "fetchAllNews Date r0 r1 r2 st = (st\<lparr>loading := True\<rparr>, Some TypeError)"
    by (simp add: fetchAllNews_def)
qed

text \<open>
  C3. The claim does not hold of the code at a fulfilled request whose body is the JSON
  literal \<^verbatim>\<open>null\<close>, a payload without the \<^verbatim>\<open>articles\<close> field: with the NewsAPI body null,
  the GNews request fulfilled with one well-formed article and the Guardian request
  rejected, reading \<^verbatim>\<open>results[0].value.articles\<close> throws, \<^verbatim>\<open>fetchAllNews\<close> ends with the
  exception, and the state holds no article, although the GNews block alone yields the
  normalized GNews article. The same happens when one NewsAPI article has no
  \<^verbatim>\<open>source\<close>. The rejected request and the body without \<^verbatim>\<open>articles\<close> are skipped as the
  claim says.
\<close>

theorem fan_out_null_body:
  "combinedArticles (Fulfilled None) (Fulfilled (Some example_gnews)) (Rejected ''timeout'')
     = Inl TypeError
   \<and> fetchAllNews example_Date (Fulfilled None) (Fulfilled (Some example_gnews))
       (Rejected ''timeout'') initial_state
     = (initial_state, Some TypeError)
   \<and> articles initial_state = []
   \<and> processGNews (Fulfilled (Some example_gnews)) ([], []) = Inr ([example_gnews_normalized], [])
   \<and> combinedArticles
       (Fulfilled (Some \<lparr>na_articles = JArray [Some (example_newsapi_article\<lparr>na_source_name := None\<rparr>)]\<rparr>))
       (Fulfilled (Some example_gnews)) (Rejected ''timeout'')
     = Inl TypeError
   \<and> combinedArticles (Fulfilled (Some \<lparr>na_articles = Missing\<rparr>)) (Fulfilled (Some example_gnews))
       (Rejected ''timeout'')
     = Inr [example_gnews_normalized]"
  by code_simp

text \<open>
  The three requests at once, one of them failed: the Guardian request is rejected, and the
  state holds the two remaining articles, the more recent one first.
\<close>

lemma fetchAllNews_example:
  "map id_key (articles (fst (fetchAllNews example_Date (Fulfilled (Some example_newsapi))
      (Fulfilled (Some example_gnews)) (Rejected ''timeout'') initial_state)))
   = [''g1'', ''n1'']
   \<and> \<not> loading (fst (fetchAllNews example_Date (Fulfilled (Some example_newsapi))
      (Fulfilled (Some example_gnews)) (Rejected ''timeout'') initial_state))
   \<and> map_sum id snd (processResults (Fulfilled (Some example_newsapi))
        (Fulfilled (Some example_gnews)) (Rejected ''timeout''))
       = Inr [(''Failed to fetch from The Guardian:'', Some ''timeout'')]"
  by code_simp

end
